theory Spec2Isabelle
  imports Main
begin

section \<open>Data model\<close>

text \<open>
  The marketplace keeps its rows in a hosted relational store; the hooks \<open>useOrders\<close> and
  \<open>useCart\<close> are the workflow over it. Row identifiers are UUIDs, held as strings as the
  TypeScript interfaces do. Columns that none of the modelled operations reads or writes
  (timestamps, titles, image lists, joined profiles) are left out of the records.

  JavaScript has one type \<open>number\<close>, an IEEE double. The records take the number type as
  a parameter \<open>'n\<close> and the functions only ask for the operations they use (\<open>0\<close>, \<open>+\<close>,
  \<open>*\<close>, \<open>-\<close>, \<open>\<le>\<close>), with no law assumed of them. What is proved at this generality holds
  for doubles as it holds for integers; a statement that needs the order laws is stated
  for an ordered ring such as \<open>int\<close>, which is what the integer columns \<open>quantity\<close> and
  \<open>stock_quantity\<close> hold.
\<close>

type_synonym uuid = string

record 'n Product =
  p_id :: uuid
  p_seller_id :: uuid
  p_price :: 'n
  p_stock_quantity :: 'n

text \<open>A row of the table \<open>cart_items\<close>.\<close>

record 'n cart_row =
  ci_id :: uuid
  ci_buyer_id :: uuid
  ci_product_id :: uuid
  ci_quantity :: 'n

text \<open>
  \<open>CartItem\<close> as \<open>fetchCartItems\<close> selects it: the row with its product joined. The
  checkout reads \<open>item.product\<close> of every item, so its input is a list of items that carry
  their product.
\<close>

record 'n CartItem = "'n cart_row" +
  ci_product :: "'n Product"

record 'n Order =
  o_id :: uuid
  o_order_number :: string
  o_buyer_id :: uuid
  o_seller_id :: uuid
  o_total_amount :: 'n
  o_status :: string
  o_shipping_address :: string
  o_notes :: "string option"

record 'n OrderItem =
  oi_order_id :: uuid
  oi_product_id :: uuid
  oi_quantity :: 'n
  oi_unit_price :: 'n
  oi_total_price :: 'n

record PaymentReceipt =
  pr_order_id :: uuid
  pr_receipt_url :: string
  pr_uploaded_by :: uuid
  pr_status :: string

record 'n StripeOrder =
  so_customer_id :: string
  so_order_id :: nat
  so_amount_total :: 'n
  so_order_status :: string

datatype role = buyer | seller

section \<open>The store\<close>

text \<open>
  The store client never throws: every call resolves to a response with \<open>data\<close> and
  \<open>error\<close>. The error is an object with a \<open>message\<close>; whether it is an instance of
  \<open>Error\<close> depends on the client library, so the error value records it.
\<close>

datatype store_error = StoreError (is_Error_instance: bool) (message: string)

text \<open>The requests the hooks issue.\<close>

record 'n OrderInsert =
  ins_order_number :: string
  ins_buyer_id :: uuid
  ins_seller_id :: uuid
  ins_total_amount :: 'n
  ins_shipping_address :: string
  ins_notes :: "string option"

datatype 'n store_call =
    RpcGenerateOrderNumber
  | InsertOrder "'n OrderInsert"
  | InsertOrderItems "'n OrderItem list"
  | UpdateProductStock uuid 'n
  | DeleteCartItemsOfBuyer uuid
  | SelectOrders "uuid option" "uuid option" "string option"
  | SelectStripeOrders
  | UpdateOrderStatus uuid string
  | InsertPaymentReceipt uuid string uuid
  | DeleteCartItem uuid
  | UpdateCartItemQuantity uuid 'n
  | SelectCartItems uuid

text \<open>
  What the program does not decide is given by the environment, indexed by the number of
  store calls issued so far: whether the call fails and with which error, the UUID the
  store draws for an inserted row, the date and the random number \<open>generate_order_number\<close>
  reads, and the clock \<open>Date.now()\<close>.
\<close>

record env =
  fault :: "nat \<Rightarrow> store_error option"
  unique_violation :: store_error
  gen_random_uuid :: "nat \<Rightarrow> uuid"
  today :: "nat \<Rightarrow> string"
  random10000 :: "nat \<Rightarrow> nat"
  date_now :: "nat \<Rightarrow> nat"

text \<open>
  The state: the tables, the log of the calls issued with their outcome, and the React
  state of the two hooks.
\<close>

record 'n state =
  products :: "'n Product list"
  cart_items :: "'n cart_row list"
  orders :: "'n Order list"
  order_items :: "'n OrderItem list"
  payment_receipts :: "PaymentReceipt list"
  stripe_user_orders :: "'n StripeOrder list"
  calls :: "('n store_call \<times> store_error option) list"
  uo_orders :: "'n Order list"
  uo_stripeOrders :: "'n StripeOrder list"
  uo_loading :: bool
  uo_error :: "string option"
  uc_cartItems :: "('n cart_row \<times> 'n Product option) list"
  uc_loading :: bool
  uc_error :: "string option"

definition log_call :: "'n store_call \<Rightarrow> store_error option \<Rightarrow> 'n state \<Rightarrow> 'n state" where
  "log_call c r st = st\<lparr>calls := calls st @ [(c, r)]\<rparr>"

subsection \<open>Order numbers\<close>

definition digit_char :: "nat \<Rightarrow> char" where
  "digit_char n = ''0123456789'' ! (n mod 10)"

text \<open>The decimal digits of a number, as a template literal and a cast to text print it.\<close>

function show_nat :: "nat \<Rightarrow> string" where
  "show_nat n = (if n < 10 then [digit_char n] else show_nat (n div 10) @ [digit_char (n mod 10)])"
  by pat_completeness auto
termination
  by (relation "measure (\<lambda>n. n)") auto

declare show_nat.simps [simp del]

definition LPAD :: "string \<Rightarrow> nat \<Rightarrow> char \<Rightarrow> string" where
  "LPAD s n fill = (if n \<le> length s then take n s else replicate (n - length s) fill @ s)"

text \<open>
  The SQL function:
  \<^verbatim>\<open>RETURN 'ORD-' || TO_CHAR(NOW(), 'YYYYMMDD') || '-' || LPAD(FLOOR(RANDOM() * 10000)::text, 4, '0');\<close>
\<close>

definition generate_order_number :: "string \<Rightarrow> nat \<Rightarrow> string" where
  "generate_order_number yyyymmdd r = ''ORD-'' @ yyyymmdd @ ''-'' @ LPAD (show_nat r) 4 (CHR ''0'')"

text \<open>\<^verbatim>\<open>supabase.rpc('generate_order_number')\<close>: the data, or null when the call fails.\<close>

definition rpc_generate_order_number :: "env \<Rightarrow> 'n state \<Rightarrow> string option \<times> 'n state" where
  "rpc_generate_order_number env st =
     (let n = length (calls st) in
      case fault env n of
        Some e \<Rightarrow> (None, log_call RpcGenerateOrderNumber (Some e) st)
      | None \<Rightarrow> (Some (generate_order_number (today env n) (random10000 env n)),
                 log_call RpcGenerateOrderNumber None st))"

subsection \<open>Writes\<close>

text \<open>
  A failing call changes no table. An insert into \<open>orders\<close> draws the row's id
  (\<open>DEFAULT gen_random_uuid()\<close>) and is refused when the id is taken (\<open>PRIMARY KEY\<close>); the
  status is \<open>DEFAULT 'pending'\<close>. \<open>.select().single()\<close> returns the inserted row.
\<close>

definition insert_order ::
  "env \<Rightarrow> 'n OrderInsert \<Rightarrow> 'n state \<Rightarrow> (store_error + 'n Order) \<times> 'n state" where
  "insert_order env payload st =
     (let n = length (calls st) in
      case fault env n of
        Some e \<Rightarrow> (Inl e, log_call (InsertOrder payload) (Some e) st)
      | None \<Rightarrow>
          if gen_random_uuid env n \<in> set (map o_id (orders st))
          then (Inl (unique_violation env),
                log_call (InsertOrder payload) (Some (unique_violation env)) st)
          else
            (let row = \<lparr>o_id = gen_random_uuid env n,
                        o_order_number = ins_order_number payload,
                        o_buyer_id = ins_buyer_id payload,
                        o_seller_id = ins_seller_id payload,
                        o_total_amount = ins_total_amount payload,
                        o_status = ''pending'',
                        o_shipping_address = ins_shipping_address payload,
                        o_notes = ins_notes payload\<rparr>
             in (Inr row, log_call (InsertOrder payload) None (st\<lparr>orders := orders st @ [row]\<rparr>))))"

definition insert_order_items ::
  "env \<Rightarrow> 'n OrderItem list \<Rightarrow> 'n state \<Rightarrow> store_error option \<times> 'n state" where
  "insert_order_items env rows st =
     (case fault env (length (calls st)) of
        Some e \<Rightarrow> (Some e, log_call (InsertOrderItems rows) (Some e) st)
      | None \<Rightarrow> (None, log_call (InsertOrderItems rows) None
                         (st\<lparr>order_items := order_items st @ rows\<rparr>)))"

definition update_product_stock ::
  "env \<Rightarrow> uuid \<Rightarrow> 'n \<Rightarrow> 'n state \<Rightarrow> store_error option \<times> 'n state" where
  "update_product_stock env pid v st =
     (case fault env (length (calls st)) of
        Some e \<Rightarrow> (Some e, log_call (UpdateProductStock pid v) (Some e) st)
      | None \<Rightarrow> (None, log_call (UpdateProductStock pid v) None
                         (st\<lparr>products := map (\<lambda>p. if p_id p = pid then p\<lparr>p_stock_quantity := v\<rparr> else p)
                                              (products st)\<rparr>)))"

definition delete_cart_items_of_buyer ::
  "env \<Rightarrow> uuid \<Rightarrow> 'n state \<Rightarrow> store_error option \<times> 'n state" where
  "delete_cart_items_of_buyer env b st =
     (case fault env (length (calls st)) of
        Some e \<Rightarrow> (Some e, log_call (DeleteCartItemsOfBuyer b) (Some e) st)
      | None \<Rightarrow> (None, log_call (DeleteCartItemsOfBuyer b) None
                         (st\<lparr>cart_items := filter (\<lambda>r. ci_buyer_id r \<noteq> b) (cart_items st)\<rparr>)))"



definition delete_cart_item :: "env \<Rightarrow> uuid \<Rightarrow> 'n state \<Rightarrow> store_error option \<times> 'n state" where
  "delete_cart_item env cid st =
     (case fault env (length (calls st)) of
        Some e \<Rightarrow> (Some e, log_call (DeleteCartItem cid) (Some e) st)
      | None \<Rightarrow> (None, log_call (DeleteCartItem cid) None
                         (st\<lparr>cart_items := filter (\<lambda>r. ci_id r \<noteq> cid) (cart_items st)\<rparr>)))"

definition update_cart_item_quantity ::
  "env \<Rightarrow> uuid \<Rightarrow> 'n \<Rightarrow> 'n state \<Rightarrow> store_error option \<times> 'n state" where
  "update_cart_item_quantity env cid q st =
     (case fault env (length (calls st)) of
        Some e \<Rightarrow> (Some e, log_call (UpdateCartItemQuantity cid q) (Some e) st)
      | None \<Rightarrow> (None, log_call (UpdateCartItemQuantity cid q) None
                         (st\<lparr>cart_items := map (\<lambda>r. if ci_id r = cid then r\<lparr>ci_quantity := q\<rparr> else r)
                                                (cart_items st)\<rparr>)))"

subsection \<open>Reads\<close>

text \<open>
  The orders of a buyer or of a seller, filtered by status, newest first: rows are appended
  as they are created, so descending \<open>created_at\<close> is the table reversed. The joined
  relations of the select are not part of the model.
\<close>

definition select_orders ::
  "env \<Rightarrow> uuid option \<Rightarrow> uuid option \<Rightarrow> string option \<Rightarrow> 'n state
     \<Rightarrow> (store_error + 'n Order list) \<times> 'n state" where
  "select_orders env by_buyer by_seller by_status st =
     (case fault env (length (calls st)) of
        Some e \<Rightarrow> (Inl e, log_call (SelectOrders by_buyer by_seller by_status) (Some e) st)
      | None \<Rightarrow>
          (Inr (rev (filter (\<lambda>row. (case by_buyer of None \<Rightarrow> True | Some b \<Rightarrow> o_buyer_id row = b)
                               \<and> (case by_seller of None \<Rightarrow> True | Some s \<Rightarrow> o_seller_id row = s)
                               \<and> (case by_status of None \<Rightarrow> True | Some s \<Rightarrow> o_status row = s))
                          (orders st))),
           log_call (SelectOrders by_buyer by_seller by_status) None st))"

definition select_stripe_orders ::
  "env \<Rightarrow> 'n state \<Rightarrow> (store_error + 'n StripeOrder list) \<times> 'n state" where
  "select_stripe_orders env st =
     (case fault env (length (calls st)) of
        Some e \<Rightarrow> (Inl e, log_call SelectStripeOrders (Some e) st)
      | None \<Rightarrow> (Inr (stripe_user_orders st), log_call SelectStripeOrders None st))"

definition select_cart_items ::
  "env \<Rightarrow> uuid \<Rightarrow> 'n state \<Rightarrow> (store_error + ('n cart_row \<times> 'n Product option) list) \<times> 'n state" where
  "select_cart_items env b st =
     (case fault env (length (calls st)) of
        Some e \<Rightarrow> (Inl e, log_call (SelectCartItems b) (Some e) st)
      | None \<Rightarrow>
          (Inr (map (\<lambda>r. (r, find (\<lambda>p. p_id p = ci_product_id r) (products st)))
                    (filter (\<lambda>r. ci_buyer_id r = b) (cart_items st))),
           log_call (SelectCartItems b) None st))"

section \<open>The hook \<open>useOrders\<close>\<close>

text \<open>
  What the closures of the hook capture: the signed-in user's id (\<open>user\<close>, null when
  signed out), the role of the profile (\<open>profile\<close>, null while it is not loaded) and the
  options of the hook.
\<close>

record ctx =
  ctx_user :: "uuid option"
  ctx_profile :: "role option"
  opt_status :: "string option"
  opt_role :: "role option"

text \<open>\<^verbatim>\<open>err instanceof Error ? err.message : fallback\<close>\<close>

definition catch_message :: "string \<Rightarrow> store_error \<Rightarrow> string" where
  "catch_message fallback err = (if is_Error_instance err then message err else fallback)"

definition fetchOrders :: "env \<Rightarrow> ctx \<Rightarrow> 'n state \<Rightarrow> 'n state" where
  "fetchOrders env c st =
     (case (ctx_user c, ctx_profile c) of
        (Some u, Some profile_role) \<Rightarrow>
          (let st0 = st\<lparr>uo_loading := True, uo_error := None\<rparr>;
               r = (case opt_role c of Some r \<Rightarrow> r | None \<Rightarrow> profile_role);
               by_buyer = (if r = buyer then Some u else None);
               by_seller = (if r = buyer then None else if r = seller then Some u else None);
               by_status = (case opt_status c of Some s \<Rightarrow> if s \<noteq> [] then Some s else None
                            | None \<Rightarrow> None)
           in case select_orders env by_buyer by_seller by_status st0 of
                (Inl fetchError, st1) \<Rightarrow>
                  st1\<lparr>uo_error := Some (catch_message ''Failed to fetch orders'' fetchError),
                      uo_loading := False\<rparr>
              | (Inr marketplaceOrders, st1) \<Rightarrow>
                  (case select_stripe_orders env (st1\<lparr>uo_orders := marketplaceOrders\<rparr>) of
                     (Inl stripeError, st2) \<Rightarrow> st2\<lparr>uo_loading := False\<rparr>
                   | (Inr stripeOrdersData, st2) \<Rightarrow>
                       st2\<lparr>uo_stripeOrders := stripeOrdersData, uo_loading := False\<rparr>))
      | _ \<Rightarrow> st\<lparr>uo_orders := [], uo_stripeOrders := [], uo_loading := False\<rparr>)"

subsection \<open>createOrder\<close>

text \<open>
  The accumulator of the grouping \<open>reduce\<close> is an object keyed by seller id. Seller ids
  are UUIDs (\<open>seller_id uuid\<close>), which are neither integer-like keys nor names inherited
  from \<open>Object.prototype\<close>, so \<open>Object.entries\<close> lists the keys in the order they were
  first written: the object is an association list in insertion order.
\<close>

definition ordersBySeller_step ::
  "(uuid \<times> 'n CartItem list) list \<Rightarrow> 'n CartItem \<Rightarrow> (uuid \<times> 'n CartItem list) list" where
  "ordersBySeller_step acc item =
     (let sellerId = p_seller_id (ci_product item);
          acc1 = (if map_of acc sellerId = None then acc @ [(sellerId, [])] else acc)
      in map (\<lambda>(k, v). if k = sellerId then (k, v @ [item]) else (k, v)) acc1)"

definition ordersBySeller :: "'n CartItem list \<Rightarrow> (uuid \<times> 'n CartItem list) list" where
  "ordersBySeller cartItems = foldl ordersBySeller_step [] cartItems"

definition totalAmount :: "('n::{zero,plus,times}) CartItem list \<Rightarrow> 'n" where
  "totalAmount items = foldl (\<lambda>sum item. sum + (p_price (ci_product item) * ci_quantity item)) 0 items"

definition order_item_of :: "uuid \<Rightarrow> ('n::times) CartItem \<Rightarrow> 'n OrderItem" where
  "order_item_of order_id item =
     \<lparr>oi_order_id = order_id,
      oi_product_id = ci_product_id item,
      oi_quantity = ci_quantity item,
      oi_unit_price = p_price (ci_product item),
      oi_total_price = p_price (ci_product item) * ci_quantity item\<rparr>"

text \<open>The stock loop; the response of the update is not looked at.\<close>

fun update_stock_loop ::
  "env \<Rightarrow> ('n::{zero,minus,ord}) CartItem list \<Rightarrow> 'n state \<Rightarrow> 'n state" where
  "update_stock_loop env [] st = st"
| "update_stock_loop env (item # items) st =
     update_stock_loop env items
       (snd (update_product_stock env (ci_product_id item)
               (max 0 (p_stock_quantity (ci_product item) - ci_quantity item)) st))"

text \<open>
  \<^verbatim>\<open>orderNumberData || `ORD-${Date.now()}`\<close>: null and the empty string are falsy.
\<close>

definition order_number_or_fallback :: "string option \<Rightarrow> nat \<Rightarrow> string" where
  "order_number_or_fallback orderNumberData now =
     (case orderNumberData of
        Some s \<Rightarrow> if s \<noteq> [] then s else ''ORD-'' @ show_nat now
      | None \<Rightarrow> ''ORD-'' @ show_nat now)"

text \<open>
  The body of the loop over the seller groups: \<open>Inl\<close> is the error thrown
  (\<open>orderError\<close> or \<open>itemsError\<close>), \<open>Inr\<close> the order pushed on \<open>createdOrders\<close>.
\<close>

definition process_group ::
  "env \<Rightarrow> uuid \<Rightarrow> string \<Rightarrow> string option \<Rightarrow> uuid \<times> ('n::{zero,plus,times,minus,ord}) CartItem list
     \<Rightarrow> 'n state \<Rightarrow> (store_error + 'n Order) \<times> 'n state" where
  "process_group env user_id shippingAddress notes g st =
     (case g of (sellerId, items) \<Rightarrow>
        (case rpc_generate_order_number env st of (orderNumberData, st1) \<Rightarrow>
           (case insert_order env
                   \<lparr>ins_order_number =
                      order_number_or_fallback orderNumberData (date_now env (length (calls st1))),
                    ins_buyer_id = user_id,
                    ins_seller_id = sellerId,
                    ins_total_amount = totalAmount items,
                    ins_shipping_address = shippingAddress,
                    ins_notes = notes\<rparr> st1 of
              (Inl orderError, st2) \<Rightarrow> (Inl orderError, st2)
            | (Inr order, st2) \<Rightarrow>
                (case insert_order_items env (map (order_item_of (o_id order)) items) st2 of
                   (Some itemsError, st3) \<Rightarrow> (Inl itemsError, st3)
                 | (None, st3) \<Rightarrow> (Inr order, update_stock_loop env items st3)))))"

fun process_groups ::
  "env \<Rightarrow> uuid \<Rightarrow> string \<Rightarrow> string option
     \<Rightarrow> (uuid \<times> ('n::{zero,plus,times,minus,ord}) CartItem list) list
     \<Rightarrow> 'n Order list \<Rightarrow> 'n state \<Rightarrow> (store_error + 'n Order list) \<times> 'n state" where
  "process_groups env user_id shippingAddress notes [] createdOrders st = (Inr createdOrders, st)"
| "process_groups env user_id shippingAddress notes (g # gs) createdOrders st =
     (case process_group env user_id shippingAddress notes g st of
        (Inl err, st1) \<Rightarrow> (Inl err, st1)
      | (Inr order, st1) \<Rightarrow>
          process_groups env user_id shippingAddress notes gs (createdOrders @ [order]) st1)"

text \<open>
  \<open>Inl m\<close> is the rejection with \<open>new Error(m)\<close>, \<open>Inr\<close> the list of created orders.
\<close>

definition createOrder ::
  "env \<Rightarrow> ctx \<Rightarrow> ('n::{zero,plus,times,minus,ord}) CartItem list \<Rightarrow> string \<Rightarrow> string option
     \<Rightarrow> 'n state \<Rightarrow> (string + 'n Order list) \<times> 'n state" where
  "createOrder env c cartItems shippingAddress notes st =
     (case ctx_user c of
        None \<Rightarrow> (Inl ''User not authenticated'', st)
      | Some u \<Rightarrow>
          (case process_groups env u shippingAddress notes (ordersBySeller cartItems) [] st of
             (Inl err, st1) \<Rightarrow> (Inl (catch_message ''Failed to create order'' err), st1)
           | (Inr createdOrders, st1) \<Rightarrow>
               (Inr createdOrders,
                fetchOrders env c (snd (delete_cart_items_of_buyer env u st1)))))"

subsection \<open>updateOrderStatus and uploadPaymentReceipt\<close>



section \<open>The hook \<open>useCart\<close>\<close>

definition fetchCartItems :: "env \<Rightarrow> ctx \<Rightarrow> 'n state \<Rightarrow> 'n state" where
  "fetchCartItems env c st =
     (case ctx_user c of
        None \<Rightarrow> st\<lparr>uc_cartItems := [], uc_loading := False\<rparr>
      | Some u \<Rightarrow>
          (case select_cart_items env u (st\<lparr>uc_loading := True, uc_error := None\<rparr>) of
             (Inl fetchError, st1) \<Rightarrow>
               st1\<lparr>uc_error := Some (catch_message ''Failed to fetch cart items'' fetchError),
                   uc_loading := False\<rparr>
           | (Inr data, st1) \<Rightarrow> st1\<lparr>uc_cartItems := data, uc_loading := False\<rparr>))"

definition removeFromCart ::
  "env \<Rightarrow> ctx \<Rightarrow> uuid \<Rightarrow> 'n state \<Rightarrow> (string + unit) \<times> 'n state" where
  "removeFromCart env c cartItemId st =
     (case delete_cart_item env cartItemId st of
        (Some err, st1) \<Rightarrow> (Inl (catch_message ''Failed to remove from cart'' err), st1)
      | (None, st1) \<Rightarrow> (Inr (), fetchCartItems env c st1))"

definition updateQuantity ::
  "env \<Rightarrow> ctx \<Rightarrow> uuid \<Rightarrow> ('n::{zero,ord}) \<Rightarrow> 'n state \<Rightarrow> (string + unit) \<times> 'n state" where
  "updateQuantity env c cartItemId quantity st =
     (if quantity \<le> 0 then removeFromCart env c cartItemId st
      else
        (case update_cart_item_quantity env cartItemId quantity st of
           (Some err, st1) \<Rightarrow> (Inl (catch_message ''Failed to update quantity'' err), st1)
         | (None, st1) \<Rightarrow> (Inr (), fetchCartItems env c st1)))"

section \<open>Notions used by the statements\<close>

definition seller_of :: "'n CartItem \<Rightarrow> uuid" where
  "seller_of item = p_seller_id (ci_product item)"



text \<open>The calls that only read.\<close>

definition is_read :: "'n store_call \<Rightarrow> bool" where
  "is_read call =
     (case call of
        SelectOrders by_buyer by_seller by_status \<Rightarrow> True
      | SelectStripeOrders \<Rightarrow> True
      | SelectCartItems b \<Rightarrow> True
      | _ \<Rightarrow> False)"

text \<open>The request of the stock loop for one item.\<close>

definition stock_request :: "('n::{zero,minus,ord}) CartItem \<Rightarrow> 'n store_call" where
  "stock_request item =
     UpdateProductStock (ci_product_id item)
       (max 0 (p_stock_quantity (ci_product item) - ci_quantity item))"

text \<open>The calls that delete cart rows.\<close>

definition is_cart_delete :: "'n store_call \<Rightarrow> bool" where
  "is_cart_delete call =
     (case call of
        DeleteCartItemsOfBuyer b \<Rightarrow> True
      | DeleteCartItem cid \<Rightarrow> True
      | _ \<Rightarrow> False)"



text \<open>The stock updates in a log, in the order they were issued.\<close>

definition is_stock_update :: "'n store_call \<Rightarrow> bool" where
  "is_stock_update call = (case call of UpdateProductStock pid v \<Rightarrow> True | _ \<Rightarrow> False)"

definition stock_requests :: "('n store_call \<times> store_error option) list \<Rightarrow> 'n store_call list" where
  "stock_requests log = filter is_stock_update (map fst log)"

section \<open>A cart of two sellers\<close>

text \<open>
  Product A of seller 1 at 500 with quantity 2, product B of seller 2 at 1000 with
  quantity 1. Product B is out of stock. The environment fails the call with the given
  index, if any, with the given error.
\<close>

definition example_productA :: "int Product" where
  "example_productA = \<lparr>p_id = ''product-a'', p_seller_id = ''seller-1'', p_price = 500,
                        p_stock_quantity = 10\<rparr>"

definition example_productB :: "int Product" where
  "example_productB = \<lparr>p_id = ''product-b'', p_seller_id = ''seller-2'', p_price = 1000,
                        p_stock_quantity = 0\<rparr>"

definition example_itemA :: "int CartItem" where
  "example_itemA = \<lparr>ci_id = ''cart-a'', ci_buyer_id = ''buyer-1'', ci_product_id = ''product-a'',
                     ci_quantity = 2, ci_product = example_productA\<rparr>"

definition example_itemB :: "int CartItem" where
  "example_itemB = \<lparr>ci_id = ''cart-b'', ci_buyer_id = ''buyer-1'', ci_product_id = ''product-b'',
                     ci_quantity = 1, ci_product = example_productB\<rparr>"

definition example_store :: "int state" where
  "example_store =
     \<lparr>products = [example_productA, example_productB],
      cart_items = [cart_row.truncate example_itemA, cart_row.truncate example_itemB],
      orders = [], order_items = [], payment_receipts = [], stripe_user_orders = [],
      calls = [],
      uo_orders = [], uo_stripeOrders = [], uo_loading = False, uo_error = None,
      uc_cartItems = [], uc_loading = False, uc_error = None\<rparr>"

definition example_env :: "nat option \<Rightarrow> store_error \<Rightarrow> env" where
  "example_env failing err =
     \<lparr>fault = (\<lambda>n. if Some n = failing then Some err else None),
      unique_violation = StoreError True ''duplicate key value violates unique constraint'',
      gen_random_uuid = (\<lambda>n. if n = 1 then ''order-1'' else ''order-2''),
      today = (\<lambda>n. ''20240101''),
      random10000 = (\<lambda>n. 42),
      date_now = (\<lambda>n. 1700000000000)\<rparr>"

definition example_ctx :: ctx where
  "example_ctx = \<lparr>ctx_user = Some ''buyer-1'', ctx_profile = Some buyer,
                   opt_status = None, opt_role = None\<rparr>"

definition example_order1 :: "int Order" where
  "example_order1 =
     \<lparr>o_id = ''order-1'', o_order_number = ''ORD-20240101-0042'', o_buyer_id = ''buyer-1'',
      o_seller_id = ''seller-1'', o_total_amount = 1000, o_status = ''pending'',
      o_shipping_address = ''12 Marina Road'', o_notes = None\<rparr>"

definition example_order2 :: "int Order" where
  "example_order2 =
     \<lparr>o_id = ''order-2'', o_order_number = ''ORD-20240101-0042'', o_buyer_id = ''buyer-1'',
      o_seller_id = ''seller-2'', o_total_amount = 1000, o_status = ''pending'',
      o_shipping_address = ''12 Marina Road'', o_notes = None\<rparr>"

section \<open>Evaluation rules\<close>

lemma replicate_numeral: "replicate (numeral v) x = x # replicate (pred_numeral v) x"
  by (simp add: numeral_eq_Suc)

lemmas store_defs = rpc_generate_order_number_def insert_order_def insert_order_items_def
  update_product_stock_def delete_cart_items_of_buyer_def select_orders_def
  select_stripe_orders_def log_call_def

lemmas run_defs = createOrder_def process_group_def ordersBySeller_def ordersBySeller_step_def
  totalAmount_def order_item_of_def order_number_or_fallback_def fetchOrders_def
  catch_message_def generate_order_number_def LPAD_def show_nat.simps digit_char_def Let_def
  replicate_numeral

lemmas example_defs = example_productA_def example_productB_def example_itemA_def
  example_itemB_def example_store_def example_env_def example_ctx_def example_order1_def
  example_order2_def cart_row.truncate_def

section \<open>Properties\<close>

subsection \<open>Grouping\<close>

lemma ordersBySeller_snoc:
  "ordersBySeller (xs @ [x]) = ordersBySeller_step (ordersBySeller xs) x"
  by (simp add: ordersBySeller_def)

lemma map_fst_step:
  "map fst (ordersBySeller_step acc x) =
     (if seller_of x \<in> set (map fst acc) then map fst acc else map fst acc @ [seller_of x])"
  by (auto simp: ordersBySeller_step_def seller_of_def Let_def map_of_eq_None_iff
           split: prod.splits intro!: map_idI)

lemma ordersBySeller_keys:
  "distinct (map fst (ordersBySeller xs)) \<and> set (map fst (ordersBySeller xs)) = seller_of ` set xs"
proof (induction xs rule: rev_induct)
  case Nil
  show ?case by (simp add: ordersBySeller_def)
next
  case (snoc x xs)
  then show ?case
    by (auto simp: ordersBySeller_snoc map_fst_step)
qed

lemma ordersBySeller_groups:
  "(k, v) \<in> set (ordersBySeller xs) \<Longrightarrow> v = filter (\<lambda>item. seller_of item = k) xs"
proof (induction xs arbitrary: k v rule: rev_induct)
  case Nil
  then show ?case by (simp add: ordersBySeller_def)
next
  case (snoc x xs)
  have keys: "set (map fst (ordersBySeller xs)) = seller_of ` set xs"
    using ordersBySeller_keys by blast
  show ?case
  proof (cases "map_of (ordersBySeller xs) (seller_of x) = None")
    case True
    then have fresh: "seller_of x \<notin> seller_of ` set xs"
      using keys by (simp add: map_of_eq_None_iff)
    from True have absent: "\<And>w. (seller_of x, w) \<notin> set (ordersBySeller xs)"
      by (force simp: map_of_eq_None_iff)
    from snoc.prems True
    have "(k, v) \<in> set (ordersBySeller xs) \<and> k \<noteq> seller_of x \<or> (k = seller_of x \<and> v = [x])"
      using absent
      by (auto simp: ordersBySeller_snoc ordersBySeller_step_def seller_of_def Let_def
               split: if_splits)
    then show ?thesis
    proof
      assume "(k, v) \<in> set (ordersBySeller xs) \<and> k \<noteq> seller_of x"
      then show ?thesis using snoc.IH by auto
    next
      assume kv: "k = seller_of x \<and> v = [x]"
      have "\<forall>item\<in>set xs. seller_of item \<noteq> seller_of x"
      proof
        fix item assume "item \<in> set xs"
        then have "seller_of item \<in> seller_of ` set xs" by simp
        with fresh show "seller_of item \<noteq> seller_of x" by metis
      qed
      then have "filter (\<lambda>item. seller_of item = seller_of x) xs = []"
        by (simp add: filter_empty_conv)
      then show ?thesis using kv by simp
    qed
  next
    case False
    from snoc.prems False
    have "\<exists>w. (k, w) \<in> set (ordersBySeller xs) \<and> v = (if k = seller_of x then w @ [x] else w)"
      by (auto simp: ordersBySeller_snoc ordersBySeller_step_def seller_of_def Let_def
               split: if_splits)
    then show ?thesis using snoc.IH by auto
  qed
qed


subsection \<open>The stock loop\<close>

lemma update_stock_loop_frame:
  "orders (update_stock_loop env items st) = orders st \<and>
   order_items (update_stock_loop env items st) = order_items st \<and>
   cart_items (update_stock_loop env items st) = cart_items st"
  by (induction items arbitrary: st)
     (auto simp: update_product_stock_def log_call_def split: option.splits)

subsection \<open>One seller group\<close>

lemma process_group_Inr:
  assumes "process_group env u addr notes (s, items) st = (Inr ord, st')"
  shows "o_seller_id ord = s \<and> o_buyer_id ord = u \<and> o_total_amount ord = totalAmount items
       \<and> o_shipping_address ord = addr \<and> o_notes ord = notes \<and> o_status ord = ''pending''
       \<and> o_id ord \<notin> set (map o_id (orders st))
       \<and> orders st' = orders st @ [ord]
       \<and> order_items st' = order_items st @ map (order_item_of (o_id ord)) items
       \<and> cart_items st' = cart_items st"
  using assms
  by (auto simp: process_group_def rpc_generate_order_number_def insert_order_def
                 insert_order_items_def log_call_def Let_def update_stock_loop_frame
           split: option.splits if_splits)

lemma process_group_Inl:
  assumes "process_group env u addr notes g st = (Inl e, st')"
  shows "cart_items st' = cart_items st \<and> order_items st' = order_items st
       \<and> products st' = products st
       \<and> (orders st' = orders st \<or> (\<exists>ord. orders st' = orders st @ [ord]))"
  using assms
  by (cases g)
     (auto simp: process_group_def rpc_generate_order_number_def insert_order_def
                 insert_order_items_def log_call_def Let_def
           split: option.splits if_splits)


subsection \<open>The loop over the seller groups\<close>

lemma process_groups_cart:
  "process_groups env u addr notes gs acc st = (r, st') \<Longrightarrow> cart_items st' = cart_items st"
proof (induction gs arbitrary: acc st)
  case Nil
  then show ?case by simp
next
  case (Cons g gs)
  obtain s items where g: "g = (s, items)" by (cases g)
  obtain r1 st1 where g1: "process_group env u addr notes g st = (r1, st1)"
    by (cases "process_group env u addr notes g st")
  show ?case
  proof (cases r1)
    case (Inl e)
    with Cons.prems g1 have "st' = st1" by simp
    then show ?thesis using process_group_Inl g1 Inl by metis
  next
    case (Inr ord)
    with Cons.prems g1
    have "process_groups env u addr notes gs (acc @ [ord]) st1 = (r, st')" by simp
    then have "cart_items st' = cart_items st1" by (rule Cons.IH)
    moreover have "cart_items st1 = cart_items st"
      using process_group_Inr [OF g1 [unfolded g Inr]] by simp
    ultimately show ?thesis by simp
  qed
qed


subsection \<open>The reload and the cart clear leave the order tables alone\<close>

lemma fetchOrders_tables:
  "orders (fetchOrders env c st) = orders st \<and> order_items (fetchOrders env c st) = order_items st
   \<and> products (fetchOrders env c st) = products st
   \<and> cart_items (fetchOrders env c st) = cart_items st"
  by (auto simp: fetchOrders_def select_orders_def select_stripe_orders_def log_call_def Let_def
           split: option.splits sum.splits prod.splits)

lemma delete_cart_tables:
  "orders (snd (delete_cart_items_of_buyer env u st)) = orders st
   \<and> order_items (snd (delete_cart_items_of_buyer env u st)) = order_items st
   \<and> products (snd (delete_cart_items_of_buyer env u st)) = products st"
  by (auto simp: delete_cart_items_of_buyer_def log_call_def split: option.splits)







subsection \<open>What the reload and the cart clear add to the log\<close>

lemma fetchOrders_calls:
  "\<exists>rest. calls (fetchOrders env c st) = calls st @ rest \<and> (\<forall>x\<in>set rest. is_read (fst x))"
  by (auto simp: fetchOrders_def select_orders_def select_stripe_orders_def log_call_def Let_def
                 is_read_def
           split: option.splits sum.splits prod.splits)

lemma delete_cart_calls:
  "calls (snd (delete_cart_items_of_buyer env u st))
     = calls st @ [(DeleteCartItemsOfBuyer u, fault env (length (calls st)))]"
  by (auto simp: delete_cart_items_of_buyer_def log_call_def split: option.splits)

lemma delete_cart_effect:
  "fault env (length (calls st)) = None \<Longrightarrow>
     cart_items (snd (delete_cart_items_of_buyer env u st))
       = filter (\<lambda>r. ci_buyer_id r \<noteq> u) (cart_items st)"
  by (simp add: delete_cart_items_of_buyer_def log_call_def)

lemma createOrder_empty:
  "ctx_user c = Some u \<Longrightarrow>
     createOrder env c [] addr notes st
       = (Inr [], fetchOrders env c (snd (delete_cart_items_of_buyer env u st)))"
  by (simp add: createOrder_def ordersBySeller_def)

text \<open>
  Claim C10. For a signed-in user and an empty cart list, \<open>createOrder\<close> returns the empty
  list and raises nothing; the tables of orders, order items and products are as before;
  the first call it issues is the delete of the cart rows of the buyer, followed by
  nothing but the reads of the reload; when the store carries the delete out, the buyer
  has no cart row left.
\<close>

theorem createOrder_empty_cart:
  assumes "ctx_user c = Some u"
  shows "fst (createOrder env c [] shippingAddress notes st) = Inr []
       \<and> orders (snd (createOrder env c [] shippingAddress notes st)) = orders st
       \<and> order_items (snd (createOrder env c [] shippingAddress notes st)) = order_items st
       \<and> products (snd (createOrder env c [] shippingAddress notes st)) = products st
       \<and> (\<exists>rest. calls (snd (createOrder env c [] shippingAddress notes st))
                    = calls st @ (DeleteCartItemsOfBuyer u, fault env (length (calls st))) # rest
                  \<and> (\<forall>x\<in>set rest. is_read (fst x)))
       \<and> (fault env (length (calls st)) = None \<longrightarrow>
            cart_items (snd (createOrder env c [] shippingAddress notes st))
              = filter (\<lambda>r. ci_buyer_id r \<noteq> u) (cart_items st))"
proof -
  let ?st1 = "snd (delete_cart_items_of_buyer env u st)"
  have run: "createOrder env c [] shippingAddress notes st = (Inr [], fetchOrders env c ?st1)"
    using assms by (rule createOrder_empty)
  obtain rest where rest: "calls (fetchOrders env c ?st1) = calls ?st1 @ rest"
      "\<forall>x\<in>set rest. is_read (fst x)"
    using fetchOrders_calls by blast
  have log: "calls (fetchOrders env c ?st1)
               = calls st @ (DeleteCartItemsOfBuyer u, fault env (length (calls st))) # rest"
    using rest(1) by (simp add: delete_cart_calls)
  have tables: "orders (fetchOrders env c ?st1) = orders st"
      "order_items (fetchOrders env c ?st1) = order_items st"
      "products (fetchOrders env c ?st1) = products st"
    by (simp_all add: fetchOrders_tables delete_cart_tables)
  have cart: "fault env (length (calls st)) = None \<longrightarrow>
      cart_items (fetchOrders env c ?st1) = filter (\<lambda>r. ci_buyer_id r \<noteq> u) (cart_items st)"
    by (simp add: fetchOrders_tables delete_cart_effect)
  show ?thesis
    unfolding run using log rest(2) tables cart by auto
qed

theorem createOrder_empty_cart_witness:
  "ctx_user example_ctx = Some ''buyer-1''
   \<and> fault (example_env None (StoreError True [])) (length (calls example_store)) = None
   \<and> fst (createOrder (example_env None (StoreError True [])) example_ctx [] ''12 Marina Road''
             None example_store) = Inr []
   \<and> cart_items (snd (createOrder (example_env None (StoreError True [])) example_ctx []
                         ''12 Marina Road'' None example_store)) = []"
proof -
  have h1: "ctx_user example_ctx = Some ''buyer-1''"
    by (simp add: example_ctx_def)
  have h2: "fault (example_env None (StoreError True [])) (length (calls example_store)) = None"
    by (simp add: example_env_def)
  have h3: "filter (\<lambda>r. ci_buyer_id r \<noteq> ''buyer-1'') (cart_items example_store) = []"
    by (simp add: example_defs)
  from createOrder_empty_cart [OF h1, of "example_env None (StoreError True [])"
         "''12 Marina Road''" None example_store] h1 h2 h3
  show ?thesis by simp
qed

subsection \<open>The cart hook\<close>

lemma fetchCartItems_tables: "cart_items (fetchCartItems env c st) = cart_items st"
  by (auto simp: fetchCartItems_def select_cart_items_def log_call_def
           split: option.splits sum.splits prod.splits)

lemma fetchCartItems_view:
  "uc_error (fetchCartItems env c st) = None \<Longrightarrow>
     fst ` set (uc_cartItems (fetchCartItems env c st)) \<subseteq> set (cart_items st)"
  by (auto simp: fetchCartItems_def select_cart_items_def log_call_def
           split: option.splits sum.splits prod.splits)

lemma removeFromCart_Inr:
  assumes "removeFromCart env c cartItemId st = (Inr (), st')"
  shows "cartItemId \<notin> ci_id ` set (cart_items st')
       \<and> (uc_error st' = None \<longrightarrow> cartItemId \<notin> ci_id ` fst ` set (uc_cartItems st'))"
proof -
  obtain r st1 where d: "delete_cart_item env cartItemId st = (r, st1)"
    by (cases "delete_cart_item env cartItemId st")
  with assms have r: "r = None" and st': "st' = fetchCartItems env c st1"
    by (auto simp: removeFromCart_def split: option.splits)
  have gone: "cartItemId \<notin> ci_id ` set (cart_items st1)"
    using d r by (auto simp: delete_cart_item_def log_call_def split: option.splits)
  have a: "cartItemId \<notin> ci_id ` set (cart_items st')"
    using gone st' by (simp add: fetchCartItems_tables)
  have b: "uc_error st' = None \<longrightarrow> cartItemId \<notin> ci_id ` fst ` set (uc_cartItems st')"
  proof
    assume "uc_error st' = None"
    then have "fst ` set (uc_cartItems st') \<subseteq> set (cart_items st1)"
      using st' fetchCartItems_view by metis
    then show "cartItemId \<notin> ci_id ` fst ` set (uc_cartItems st')"
      using gone by blast
  qed
  from a b show ?thesis by blast
qed

text \<open>
  Claim C9. For every cart item id and every quantity \<open>q \<le> 0\<close>, \<open>updateQuantity\<close> gives
  what \<open>removeFromCart\<close> gives: the same result and the same state, whatever the store
  answers. When it returns without an error, no row of \<open>cart_items\<close> has the id, and
  neither has the cart list of the hook unless the reload recorded an error.
\<close>

theorem updateQuantity_nonpositive_is_remove:
  assumes "quantity \<le> 0"
  shows "updateQuantity env c cartItemId quantity st = removeFromCart env c cartItemId st
       \<and> (\<forall>st'. updateQuantity env c cartItemId quantity st = (Inr (), st') \<longrightarrow>
             cartItemId \<notin> ci_id ` set (cart_items st')
             \<and> (uc_error st' = None \<longrightarrow> cartItemId \<notin> ci_id ` fst ` set (uc_cartItems st')))"
proof -
  have same: "updateQuantity env c cartItemId quantity st = removeFromCart env c cartItemId st"
    using assms by (simp add: updateQuantity_def)
  show ?thesis
    unfolding same using removeFromCart_Inr by blast
qed

theorem updateQuantity_nonpositive_is_remove_witness:
  "(0::int) \<le> 0
   \<and> updateQuantity (example_env None (StoreError True [])) example_ctx ''cart-a'' (0::int)
        example_store
      = (Inr (), snd (removeFromCart (example_env None (StoreError True [])) example_ctx ''cart-a''
                        example_store))
   \<and> map ci_id (cart_items (snd (removeFromCart (example_env None (StoreError True []))
                                     example_ctx ''cart-a'' example_store))) = [''cart-b'']
   \<and> ''cart-a'' \<notin> ci_id ` set (cart_items (snd (removeFromCart
                        (example_env None (StoreError True [])) example_ctx ''cart-a''
                        example_store)))"
proof -
  have h1: "(0::int) \<le> 0" by simp
  have h2: "removeFromCart (example_env None (StoreError True [])) example_ctx ''cart-a''
              example_store
            = (Inr (), snd (removeFromCart (example_env None (StoreError True [])) example_ctx
                              ''cart-a'' example_store))"
    by (simp add: prod_eq_iff removeFromCart_def delete_cart_item_def log_call_def example_defs)
  have h3: "map ci_id (cart_items (snd (removeFromCart (example_env None (StoreError True []))
                                     example_ctx ''cart-a'' example_store))) = [''cart-b'']"
    by (simp add: removeFromCart_def delete_cart_item_def fetchCartItems_def
                  select_cart_items_def log_call_def example_defs)
  from updateQuantity_nonpositive_is_remove [OF h1, of "example_env None (StoreError True [])"
         example_ctx "''cart-a''" example_store] h2 h3
  show ?thesis by simp
qed

subsection \<open>What a checkout adds to the log\<close>

lemma update_stock_loop_calls:
  "\<exists>rest. calls (update_stock_loop env items st) = calls st @ rest
          \<and> map fst rest = map stock_request items"
proof (induction items arbitrary: st)
  case Nil
  show ?case by simp
next
  case (Cons item items)
  let ?st1 = "snd (update_product_stock env (ci_product_id item)
                     (max 0 (p_stock_quantity (ci_product item) - ci_quantity item)) st)"
  have one: "calls ?st1 = calls st @ [(stock_request item, fault env (length (calls st)))]"
    by (auto simp: update_product_stock_def log_call_def stock_request_def split: option.splits)
  from Cons.IH [of ?st1] obtain rest where
    rest: "calls (update_stock_loop env items ?st1) = calls ?st1 @ rest"
          "map fst rest = map stock_request items"
    by blast
  have "calls (update_stock_loop env (item # items) st)
          = calls st @ ((stock_request item, fault env (length (calls st))) # rest)"
    using rest(1) one by simp
  moreover have "map fst ((stock_request item, fault env (length (calls st))) # rest)
                   = map stock_request (item # items)"
    using rest(2) by simp
  ultimately show ?case by blast
qed









subsection \<open>A group that fails\<close>

lemma process_groups_append:
  "process_groups env u addr notes (xs @ ys) acc st =
     (case process_groups env u addr notes xs acc st of
        (Inl e, st1) \<Rightarrow> (Inl e, st1)
      | (Inr os, st1) \<Rightarrow> process_groups env u addr notes ys os st1)"
  by (induction xs arbitrary: acc st) (auto split: prod.splits sum.splits)

lemma is_cart_delete_simps:
  "\<not> is_cart_delete RpcGenerateOrderNumber"
  "\<not> is_cart_delete (InsertOrder p)"
  "\<not> is_cart_delete (InsertOrderItems rows)"
  "\<not> is_cart_delete (UpdateProductStock pid v)"
  by (simp_all add: is_cart_delete_def)

lemma stock_requests_no_cart_delete:
  "filter is_cart_delete (map stock_request items) = []"
  by (induction items) (auto simp: stock_request_def is_cart_delete_def)

lemma process_group_no_cart_delete:
  "filter is_cart_delete (map fst (calls (snd (process_group env u addr notes g st))))
     = filter is_cart_delete (map fst (calls st))"
proof -
  obtain s items where g: "g = (s, items)" by (cases g)
  obtain tail where tail: "\<And>st3. calls (update_stock_loop env items st3) = calls st3 @ tail st3"
      "\<And>st3. map fst (tail st3) = map stock_request items"
    using update_stock_loop_calls [of env items] by metis
  show ?thesis
    unfolding g
    by (auto simp: process_group_def rpc_generate_order_number_def insert_order_def
                   insert_order_items_def log_call_def Let_def tail is_cart_delete_simps
                   stock_requests_no_cart_delete
             split: option.splits if_splits)
qed

lemma process_groups_no_cart_delete:
  "filter is_cart_delete (map fst (calls (snd (process_groups env u addr notes gs acc st))))
     = filter is_cart_delete (map fst (calls st))"
proof (induction gs arbitrary: acc st)
  case Nil
  show ?case by simp
next
  case (Cons g gs)
  obtain r1 st1 where g1: "process_group env u addr notes g st = (r1, st1)"
    by (cases "process_group env u addr notes g st")
  have one: "filter is_cart_delete (map fst (calls st1)) = filter is_cart_delete (map fst (calls st))"
    using process_group_no_cart_delete [of env u addr "notes" g st] g1 by simp
  show ?case
  proof (cases r1)
    case (Inl e)
    then show ?thesis using g1 one by simp
  next
    case (Inr ord)
    then show ?thesis using g1 one Cons.IH [of "acc @ [ord]" st1] by simp
  qed
qed

lemma process_groups_orders:
  "process_groups env u addr notes gs acc st = (Inr os, st') \<Longrightarrow>
     \<exists>new. os = acc @ new \<and> orders st' = orders st @ new"
proof (induction gs arbitrary: acc st)
  case Nil
  then show ?case by simp
next
  case (Cons g gs)
  obtain s items where g: "g = (s, items)" by (cases g)
  obtain r1 st1 where g1: "process_group env u addr notes (s, items) st = (r1, st1)"
    by (cases "process_group env u addr notes (s, items) st")
  from Cons.prems g g1 obtain ord where r1: "r1 = Inr ord" by (cases r1) auto
  with Cons.prems g g1
  have rest: "process_groups env u addr notes gs (acc @ [ord]) st1 = (Inr os, st')" by simp
  from Cons.IH [OF rest] obtain new where
    new: "os = (acc @ [ord]) @ new" "orders st' = orders st1 @ new" by blast
  have "orders st1 = orders st @ [ord]"
    using process_group_Inr [OF g1 [unfolded r1]] by simp
  then have "os = acc @ (ord # new) \<and> orders st' = orders st @ (ord # new)"
    using new by simp
  then show ?case by blast
qed

text \<open>
  Claim C2. Let the groups of the cart be \<open>committed\<close>, then \<open>g\<close>, then \<open>remaining\<close>; let
  the groups of \<open>committed\<close> have gone through, leaving the state \<open>st1\<close>, and let the order
  insert or the order-items insert of \<open>g\<close> fail with \<open>err\<close>, leaving \<open>st2\<close>. Then
  \<open>createOrder\<close> fails with the message taken from \<open>err\<close>, and the state it leaves is
  \<open>st2\<close> itself: nothing is called after the failure. No cart row is deleted and no
  delete of cart rows is among the calls issued. Nothing is rolled back: the orders of
  the committed groups are in the table (followed at most by the order of \<open>g\<close>, when
  it is the insert of its items that failed), and the order items and the stock are as
  the committed groups left them.
\<close>

theorem createOrder_partial_failure:
  assumes "ctx_user c = Some u"
      and "ordersBySeller cartItems = committed @ g # remaining"
      and "process_groups env u shippingAddress notes committed [] st = (Inr os1, st1)"
      and "process_group env u shippingAddress notes g st1 = (Inl err, st2)"
  shows "createOrder env c cartItems shippingAddress notes st
           = (Inl (catch_message ''Failed to create order'' err), st2)
       \<and> cart_items st2 = cart_items st
       \<and> filter is_cart_delete (map fst (calls st2)) = filter is_cart_delete (map fst (calls st))
       \<and> orders st1 = orders st @ os1
       \<and> (orders st2 = orders st1 \<or> (\<exists>orphan. orders st2 = orders st1 @ [orphan]))
       \<and> order_items st2 = order_items st1
       \<and> products st2 = products st1"
proof -
  have loop: "process_groups env u shippingAddress notes (ordersBySeller cartItems) [] st
                = (Inl err, st2)"
    using assms(2,3,4) by (simp add: process_groups_append)
  then have run: "createOrder env c cartItems shippingAddress notes st
           = (Inl (catch_message ''Failed to create order'' err), st2)"
    using assms(1) by (simp add: createOrder_def)
  have cart: "cart_items st2 = cart_items st"
    using process_groups_cart [OF loop] .
  have no_delete: "filter is_cart_delete (map fst (calls st2))
                     = filter is_cart_delete (map fst (calls st))"
    using process_groups_no_cart_delete
            [of env u shippingAddress "notes" "ordersBySeller cartItems" "[]" st] loop
    by simp
  have kept: "orders st1 = orders st @ os1"
    using process_groups_orders [OF assms(3)] by auto
  note fail = process_group_Inl [OF assms(4)]
  show ?thesis using run cart no_delete kept fail by blast
qed

theorem createOrder_partial_failure_witness:
  "ctx_user example_ctx = Some ''buyer-1''
   \<and> ordersBySeller [example_itemA, example_itemB]
       = [(''seller-1'', [example_itemA])] @ (''seller-2'', [example_itemB]) # []
   \<and> fst (process_groups (example_env (Some 6) (StoreError True ''connection lost'')) ''buyer-1''
             ''12 Marina Road'' None [(''seller-1'', [example_itemA])] [] example_store)
       = Inr [example_order1]
   \<and> fst (process_group (example_env (Some 6) (StoreError True ''connection lost'')) ''buyer-1''
             ''12 Marina Road'' None (''seller-2'', [example_itemB])
             (snd (process_groups (example_env (Some 6) (StoreError True ''connection lost''))
                     ''buyer-1'' ''12 Marina Road'' None [(''seller-1'', [example_itemA])] []
                     example_store)))
       = Inl (StoreError True ''connection lost'')
   \<and> fst (createOrder (example_env (Some 6) (StoreError True ''connection lost'')) example_ctx
             [example_itemA, example_itemB] ''12 Marina Road'' None example_store)
       = Inl ''connection lost''
   \<and> cart_items (snd (createOrder (example_env (Some 6) (StoreError True ''connection lost''))
                         example_ctx [example_itemA, example_itemB] ''12 Marina Road'' None
                         example_store))
       = cart_items example_store"
proof -
  let ?env = "example_env (Some 6) (StoreError True ''connection lost'')"
  let ?st1 = "snd (process_groups ?env ''buyer-1'' ''12 Marina Road'' None
                     [(''seller-1'', [example_itemA])] [] example_store)"
  let ?st2 = "snd (process_group ?env ''buyer-1'' ''12 Marina Road'' None
                     (''seller-2'', [example_itemB]) ?st1)"
  have h1: "ctx_user example_ctx = Some ''buyer-1''" by (simp add: example_ctx_def)
  have h2: "ordersBySeller [example_itemA, example_itemB]
       = [(''seller-1'', [example_itemA])] @ (''seller-2'', [example_itemB]) # []"
    by (simp add: run_defs example_defs)
  have f3: "fst (process_groups ?env ''buyer-1'' ''12 Marina Road'' None
              [(''seller-1'', [example_itemA])] [] example_store) = Inr [example_order1]"
    by (simp add: store_defs run_defs example_defs)
  have f4: "fst (process_group ?env ''buyer-1'' ''12 Marina Road'' None
              (''seller-2'', [example_itemB]) ?st1) = Inl (StoreError True ''connection lost'')"
    by (simp add: store_defs run_defs example_defs)
  have h3: "process_groups ?env ''buyer-1'' ''12 Marina Road'' None
              [(''seller-1'', [example_itemA])] [] example_store = (Inr [example_order1], ?st1)"
    using f3 by (simp only: prod_eq_iff fst_conv snd_conv simp_thms)
  have h4: "process_group ?env ''buyer-1'' ''12 Marina Road'' None
              (''seller-2'', [example_itemB]) ?st1
            = (Inl (StoreError True ''connection lost''), ?st2)"
    using f4 by (simp only: prod_eq_iff fst_conv snd_conv simp_thms)
  have h5: "catch_message ''Failed to create order'' (StoreError True ''connection lost'')
              = ''connection lost''"
    by (simp add: catch_message_def)
  from createOrder_partial_failure [OF h1 h2 h3 h4]
  have res: "createOrder ?env example_ctx [example_itemA, example_itemB] ''12 Marina Road'' None
               example_store
             = (Inl (catch_message ''Failed to create order'' (StoreError True ''connection lost'')),
                ?st2)"
    and cart: "cart_items ?st2 = cart_items example_store"
    by blast+
  have c5: "fst (createOrder ?env example_ctx [example_itemA, example_itemB] ''12 Marina Road''
                   None example_store) = Inl ''connection lost''"
    by (simp only: res fst_conv h5)
  have c6: "cart_items (snd (createOrder ?env example_ctx [example_itemA, example_itemB]
                               ''12 Marina Road'' None example_store))
              = cart_items example_store"
    by (simp only: res snd_conv cart)
  from h1 h2 f3 f4 c5 c6 show ?thesis by blast
qed

subsection \<open>The cart of two sellers when the second order insert fails\<close>

lemma ordersBySeller_two:
  "seller_of a \<noteq> seller_of b \<Longrightarrow>
     ordersBySeller [a, b] = [(seller_of a, [a]), (seller_of b, [b])]"
  by (simp add: ordersBySeller_def ordersBySeller_step_def seller_of_def Let_def)

lemma process_group_order_insert_fails:
  assumes "fault env (Suc (length (calls st))) = Some err"
  shows "fst (process_group env u addr notes g st) = Inl err
       \<and> orders (snd (process_group env u addr notes g st)) = orders st"
  using assms
  by (cases g)
     (auto simp: process_group_def rpc_generate_order_number_def insert_order_def
                 log_call_def Let_def
           split: option.splits)

text \<open>
  Claim C7 describes the cart of product A (seller S1, quantity 2) and product B (seller
  S2, quantity 1) when the insert of the S2 order fails after the S1 order went through,
  and says that the cart item of product A is then gone. In that run the caller gets the
  error and exactly the S1 order exists, but the cart still holds both rows: the row of
  product A is not deleted.
\<close>

theorem createOrder_second_seller_fails_counterexample:
  "fst (createOrder (example_env (Some 5) (StoreError True ''connection lost'')) example_ctx
          [example_itemA, example_itemB] ''12 Marina Road'' None example_store)
     = Inl ''connection lost''
   \<and> orders (snd (createOrder (example_env (Some 5) (StoreError True ''connection lost''))
                     example_ctx [example_itemA, example_itemB] ''12 Marina Road'' None
                     example_store))
       = [example_order1]
   \<and> map ci_product_id
         (cart_items (snd (createOrder (example_env (Some 5) (StoreError True ''connection lost''))
                             example_ctx [example_itemA, example_itemB] ''12 Marina Road'' None
                             example_store)))
       = [''product-a'', ''product-b'']"
  by (simp add: store_defs run_defs example_defs)

text \<open>
  Claim C7, amended. For a cart of an item \<open>a\<close> of one seller followed by an item \<open>b\<close> of
  another, whatever the quantities: when the group of \<open>a\<close> goes through with the order
  \<open>ord1\<close> and the store then fails the insert of the order of \<open>b\<close>'s seller, the caller
  receives the error, the orders table has gained exactly \<open>ord1\<close>, which is of the seller
  of \<open>a\<close>, and the cart rows are what they were: the row of \<open>a\<close> and the row of \<open>b\<close> are
  both still there.
\<close>

theorem createOrder_second_seller_fails:
  assumes "ctx_user c = Some u"
      and "seller_of a \<noteq> seller_of b"
      and "process_group env u shippingAddress notes (seller_of a, [a]) st = (Inr ord1, st1)"
      and "fault env (Suc (length (calls st1))) = Some err"
  shows "fst (createOrder env c [a, b] shippingAddress notes st)
           = Inl (catch_message ''Failed to create order'' err)
       \<and> orders (snd (createOrder env c [a, b] shippingAddress notes st)) = orders st @ [ord1]
       \<and> o_seller_id ord1 = seller_of a
       \<and> cart_items (snd (createOrder env c [a, b] shippingAddress notes st)) = cart_items st"
proof -
  note first = process_group_Inr [OF assms(3)]
  note second = process_group_order_insert_fails
                  [OF assms(4), of u shippingAddress "notes" "(seller_of b, [b])"]
  obtain st2 where g2: "process_group env u shippingAddress notes (seller_of b, [b]) st1
                          = (Inl err, st2)"
    using second by (cases "process_group env u shippingAddress notes (seller_of b, [b]) st1") auto
  have loop: "process_groups env u shippingAddress notes (ordersBySeller [a, b]) [] st
                = (Inl err, st2)"
    using assms(3) g2 by (simp add: ordersBySeller_two [OF assms(2)])
  have run: "createOrder env c [a, b] shippingAddress notes st
               = (Inl (catch_message ''Failed to create order'' err), st2)"
    using assms(1) loop by (simp add: createOrder_def)
  have cart: "cart_items st2 = cart_items st"
    using process_groups_cart [OF loop] .
  have "orders st2 = orders st @ [ord1]"
    using second g2 first by simp
  then show ?thesis using run cart first by simp
qed

theorem createOrder_second_seller_fails_witness:
  "ctx_user example_ctx = Some ''buyer-1''
   \<and> seller_of example_itemA \<noteq> seller_of example_itemB
   \<and> fst (process_group (example_env (Some 5) (StoreError False ''connection lost'')) ''buyer-1''
             ''12 Marina Road'' None (seller_of example_itemA, [example_itemA]) example_store)
       = Inr example_order1
   \<and> fault (example_env (Some 5) (StoreError False ''connection lost''))
        (Suc (length (calls (snd (process_group
           (example_env (Some 5) (StoreError False ''connection lost'')) ''buyer-1''
           ''12 Marina Road'' None (seller_of example_itemA, [example_itemA]) example_store)))))
       = Some (StoreError False ''connection lost'')
   \<and> fst (createOrder (example_env (Some 5) (StoreError False ''connection lost'')) example_ctx
             [example_itemA, example_itemB] ''12 Marina Road'' None example_store)
       = Inl ''Failed to create order''
   \<and> cart_items (snd (createOrder (example_env (Some 5) (StoreError False ''connection lost''))
                         example_ctx [example_itemA, example_itemB] ''12 Marina Road'' None
                         example_store))
       = cart_items example_store"
proof -
  let ?env = "example_env (Some 5) (StoreError False ''connection lost'')"
  let ?g1 = "process_group ?env ''buyer-1'' ''12 Marina Road'' None
               (seller_of example_itemA, [example_itemA]) example_store"
  have h1: "ctx_user example_ctx = Some ''buyer-1''" by (simp add: example_ctx_def)
  have h2: "seller_of example_itemA \<noteq> seller_of example_itemB"
    by (simp add: seller_of_def example_defs)
  have f3: "fst ?g1 = Inr example_order1"
    by (simp add: seller_of_def store_defs run_defs example_defs)
  have h3: "?g1 = (Inr example_order1, snd ?g1)"
    using f3 by (simp only: prod_eq_iff fst_conv snd_conv simp_thms)
  have h4: "fault ?env (Suc (length (calls (snd ?g1)))) = Some (StoreError False ''connection lost'')"
    by (simp add: seller_of_def store_defs run_defs example_defs)
  have h5: "catch_message ''Failed to create order'' (StoreError False ''connection lost'')
              = ''Failed to create order''"
    by (simp add: catch_message_def)
  from createOrder_second_seller_fails [OF h1 h2 h3 h4]
  have res: "fst (createOrder ?env example_ctx [example_itemA, example_itemB] ''12 Marina Road''
                    None example_store)
               = Inl (catch_message ''Failed to create order'' (StoreError False ''connection lost''))"
    and cart: "cart_items (snd (createOrder ?env example_ctx [example_itemA, example_itemB]
                                  ''12 Marina Road'' None example_store))
                 = cart_items example_store"
    by blast+
  have c5: "fst (createOrder ?env example_ctx [example_itemA, example_itemB] ''12 Marina Road''
                   None example_store) = Inl ''Failed to create order''"
    using res by (simp only: h5)
  from h1 h2 f3 h4 c5 cart show ?thesis by blast
qed

subsection \<open>The order number\<close>




subsection \<open>Failures of the writes that are checked\<close>

















subsection \<open>The stock\<close>

lemma is_stock_update_simps:
  "\<not> is_stock_update RpcGenerateOrderNumber"
  "\<not> is_stock_update (InsertOrder p)"
  "\<not> is_stock_update (InsertOrderItems rows)"
  "is_stock_update (UpdateProductStock pid v)"
  "\<not> is_stock_update (DeleteCartItemsOfBuyer b)"
  "is_stock_update (stock_request item)"
  by (simp_all add: is_stock_update_def stock_request_def)

lemma read_not_stock_update: "is_read call \<Longrightarrow> \<not> is_stock_update call"
  by (cases call) (simp_all add: is_read_def is_stock_update_def)

lemma stock_requests_append:
  "stock_requests (xs @ ys) = stock_requests xs @ stock_requests ys"
  by (simp add: stock_requests_def)

lemma stock_requests_Cons:
  "stock_requests ((call, r) # xs)
     = (if is_stock_update call then [call] else []) @ stock_requests xs"
  by (simp add: stock_requests_def)

lemma stock_requests_Nil: "stock_requests [] = []"
  by (simp add: stock_requests_def)

lemma stock_loop_requests:
  "stock_requests (calls (update_stock_loop env items st))
     = stock_requests (calls st) @ map stock_request items"
proof -
  obtain rest where rest: "calls (update_stock_loop env items st) = calls st @ rest"
      "map fst rest = map stock_request items"
    using update_stock_loop_calls by blast
  have "filter is_stock_update (map stock_request items) = map stock_request items"
    by (induction items) (simp_all add: is_stock_update_simps)
  then show ?thesis using rest by (simp add: stock_requests_def)
qed

lemma fetchOrders_stock_requests:
  "stock_requests (calls (fetchOrders env c st)) = stock_requests (calls st)"
proof -
  obtain rest where rest: "calls (fetchOrders env c st) = calls st @ rest"
      "\<forall>x\<in>set rest. is_read (fst x)"
    using fetchOrders_calls by blast
  then have "\<forall>x\<in>set rest. \<not> is_stock_update (fst x)" using read_not_stock_update by blast
  then have "filter is_stock_update (map fst rest) = []"
    by (auto simp: filter_empty_conv)
  then show ?thesis using rest(1) by (simp add: stock_requests_def)
qed

lemma process_group_stock_requests:
  "process_group env u addr notes (s, items) st = (r, st') \<Longrightarrow>
     stock_requests (calls st')
       = stock_requests (calls st)
         @ (case r of Inl e \<Rightarrow> [] | Inr ord \<Rightarrow> map stock_request items)"
  by (auto simp: process_group_def rpc_generate_order_number_def insert_order_def
                 insert_order_items_def log_call_def Let_def stock_loop_requests
                 stock_requests_append stock_requests_Cons stock_requests_Nil
                 is_stock_update_simps
           split: option.splits if_splits)

lemma process_groups_stock_requests:
  "process_groups env u addr notes gs acc st = (r, st') \<Longrightarrow>
     \<exists>served. stock_requests (calls st') = stock_requests (calls st) @ map stock_request served
        \<and> set served \<subseteq> set (concat (map snd gs))
        \<and> (\<forall>os. r = Inr os \<longrightarrow> served = concat (map snd gs))"
proof (induction gs arbitrary: acc st)
  case Nil
  then show ?case by (auto intro: exI [of _ "[]"])
next
  case (Cons g gs)
  obtain s items where g: "g = (s, items)" by (cases g)
  obtain r1 st1 where g1: "process_group env u addr notes (s, items) st = (r1, st1)"
    by (cases "process_group env u addr notes (s, items) st")
  note one = process_group_stock_requests [OF g1]
  show ?case
  proof (cases r1)
    case (Inl e)
    with Cons.prems g g1 have "r = Inl e" "st' = st1" by auto
    then show ?thesis using one Inl by (auto intro: exI [of _ "[]"])
  next
    case (Inr ord)
    with Cons.prems g g1
    have "process_groups env u addr notes gs (acc @ [ord]) st1 = (r, st')" by simp
    from Cons.IH [OF this] obtain served where
      served: "stock_requests (calls st') = stock_requests (calls st1) @ map stock_request served"
              "set served \<subseteq> set (concat (map snd gs))"
              "\<forall>os. r = Inr os \<longrightarrow> served = concat (map snd gs)"
      by blast
    have "stock_requests (calls st')
            = stock_requests (calls st) @ map stock_request (items @ served)"
      using served(1) one Inr by simp
    moreover have "set (items @ served) \<subseteq> set (concat (map snd (g # gs)))"
      using served(2) g by auto
    moreover have "\<forall>os. r = Inr os \<longrightarrow> items @ served = concat (map snd (g # gs))"
      using served(3) g by simp
    ultimately show ?thesis by blast
  qed
qed

lemma ordersBySeller_items: "set (concat (map snd (ordersBySeller cartItems))) = set cartItems"
proof
  show "set (concat (map snd (ordersBySeller cartItems))) \<subseteq> set cartItems"
  proof
    fix item assume "item \<in> set (concat (map snd (ordersBySeller cartItems)))"
    then obtain k v where kv: "(k, v) \<in> set (ordersBySeller cartItems)" "item \<in> set v"
      by auto
    then show "item \<in> set cartItems" using ordersBySeller_groups [OF kv(1)] by simp
  qed
  show "set cartItems \<subseteq> set (concat (map snd (ordersBySeller cartItems)))"
  proof
    fix item assume mem: "item \<in> set cartItems"
    then have "seller_of item \<in> set (map fst (ordersBySeller cartItems))"
      using ordersBySeller_keys [of cartItems] by simp
    then obtain v where kv: "(seller_of item, v) \<in> set (ordersBySeller cartItems)"
      by auto
    then have "item \<in> set v" using ordersBySeller_groups [OF kv] mem by simp
    then show "item \<in> set (concat (map snd (ordersBySeller cartItems)))"
      using kv by force
  qed
qed

lemma createOrder_stock_requests:
  assumes "createOrder env c cartItems addr notes st = (r, st')"
  shows "\<exists>served. stock_requests (calls st') = stock_requests (calls st) @ map stock_request served
           \<and> set served \<subseteq> set cartItems
           \<and> (\<forall>os. r = Inr os \<longrightarrow> set served = set cartItems)"
proof (cases "ctx_user c")
  case None
  with assms have "st' = st" "r = Inl ''User not authenticated''"
    by (auto simp: createOrder_def)
  then show ?thesis by (auto intro: exI [of _ "[]"])
next
  case (Some u)
  obtain r1 st1 where
    loop: "process_groups env u addr notes (ordersBySeller cartItems) [] st = (r1, st1)"
    by (cases "process_groups env u addr notes (ordersBySeller cartItems) [] st")
  from process_groups_stock_requests [OF loop] obtain served where
    served: "stock_requests (calls st1) = stock_requests (calls st) @ map stock_request served"
            "set served \<subseteq> set cartItems"
            "\<forall>os. r1 = Inr os \<longrightarrow> set served = set cartItems"
    using ordersBySeller_items [of cartItems] by auto
  show ?thesis
  proof (cases r1)
    case (Inl e)
    with assms Some loop have "st' = st1" "\<forall>os. r \<noteq> Inr os"
      by (auto simp: createOrder_def)
    then show ?thesis using served by auto
  next
    case (Inr os)
    with assms Some loop
    have st': "st' = fetchOrders env c (snd (delete_cart_items_of_buyer env u st1))"
      by (auto simp: createOrder_def)
    have "stock_requests (calls st') = stock_requests (calls st1)"
      unfolding st'
      by (simp add: fetchOrders_stock_requests delete_cart_calls stock_requests_append
                    stock_requests_Cons stock_requests_Nil is_stock_update_simps)
    then show ?thesis using served Inr by auto
  qed
qed

lemma update_product_stock_nonneg:
  fixes v :: "'n::linordered_idom"
  assumes "0 \<le> v" and "\<forall>p\<in>set (products st). 0 \<le> p_stock_quantity p"
  shows "\<forall>p\<in>set (products (snd (update_product_stock env pid v st))). 0 \<le> p_stock_quantity p"
  using assms
  by (auto simp: update_product_stock_def log_call_def split: option.splits)

lemma update_stock_loop_nonneg:
  fixes st :: "('n::linordered_idom) state"
  assumes "\<forall>p\<in>set (products st). 0 \<le> p_stock_quantity p"
  shows "\<forall>p\<in>set (products (update_stock_loop env items st)). 0 \<le> p_stock_quantity p"
  using assms
proof (induction items arbitrary: st)
  case Nil
  then show ?case by simp
next
  case (Cons item items)
  have "\<forall>p\<in>set (products (snd (update_product_stock env (ci_product_id item)
                 (max 0 (p_stock_quantity (ci_product item) - ci_quantity item)) st))).
          0 \<le> p_stock_quantity p"
    using Cons.prems by (intro update_product_stock_nonneg) simp_all
  from Cons.IH [OF this] show ?case by simp
qed

lemma process_group_Inr_products:
  "process_group env u addr notes (s, items) st = (Inr ord, st') \<Longrightarrow>
     \<exists>st3. st' = update_stock_loop env items st3 \<and> products st3 = products st"
  by (auto simp: process_group_def rpc_generate_order_number_def insert_order_def
                 insert_order_items_def log_call_def Let_def
           split: option.splits if_splits)

lemma process_group_nonneg:
  fixes st :: "('n::linordered_idom) state"
  assumes "\<forall>p\<in>set (products st). 0 \<le> p_stock_quantity p"
  shows "\<forall>p\<in>set (products (snd (process_group env u addr notes g st))). 0 \<le> p_stock_quantity p"
proof -
  obtain s items where g: "g = (s, items)" by (cases g)
  obtain r st' where run: "process_group env u addr notes (s, items) st = (r, st')"
    by (cases "process_group env u addr notes (s, items) st")
  have "\<forall>p\<in>set (products st'). 0 \<le> p_stock_quantity p"
  proof (cases r)
    case (Inl e)
    then have "products st' = products st" using process_group_Inl run by metis
    then show ?thesis using assms by simp
  next
    case (Inr ord)
    then obtain st3 where st3: "st' = update_stock_loop env items st3" "products st3 = products st"
      using process_group_Inr_products run by metis
    have "\<forall>p\<in>set (products st3). 0 \<le> p_stock_quantity p" using assms st3(2) by simp
    from update_stock_loop_nonneg [OF this] show ?thesis using st3(1) by simp
  qed
  then show ?thesis using g run by simp
qed

lemma process_groups_nonneg:
  fixes st :: "('n::linordered_idom) state"
  assumes "\<forall>p\<in>set (products st). 0 \<le> p_stock_quantity p"
  shows "\<forall>p\<in>set (products (snd (process_groups env u addr notes gs acc st))).
           0 \<le> p_stock_quantity p"
  using assms
proof (induction gs arbitrary: acc st)
  case Nil
  then show ?case by simp
next
  case (Cons g gs)
  obtain r1 st1 where g1: "process_group env u addr notes g st = (r1, st1)"
    by (cases "process_group env u addr notes g st")
  have one: "\<forall>p\<in>set (products st1). 0 \<le> p_stock_quantity p"
    using process_group_nonneg [OF Cons.prems, of env u addr "notes" g] g1 by simp
  show ?case
  proof (cases r1)
    case (Inl e)
    then show ?thesis using g1 one by simp
  next
    case (Inr ord)
    then show ?thesis using g1 Cons.IH [OF one, of "acc @ [ord]"] by simp
  qed
qed

lemma createOrder_nonneg:
  fixes st :: "('n::linordered_idom) state"
  assumes "\<forall>p\<in>set (products st). 0 \<le> p_stock_quantity p"
  shows "\<forall>p\<in>set (products (snd (createOrder env c cartItems addr notes st))).
           0 \<le> p_stock_quantity p"
proof (cases "ctx_user c")
  case None
  then show ?thesis using assms by (simp add: createOrder_def)
next
  case (Some u)
  note loop = process_groups_nonneg [OF assms, of env u addr "notes" "ordersBySeller cartItems" "[]"]
  show ?thesis
    using Some loop
    by (auto simp: createOrder_def fetchOrders_tables delete_cart_tables
             split: prod.splits sum.splits)
qed

text \<open>
  Claim C4. The stock a checkout starts from is the one its input carries: the
  \<open>stock_quantity\<close> of the product joined to the cart item. In every run of
  \<open>createOrder\<close>, the stock updates issued are the requests of cart items, in the order
  they were served, and when the checkout returns its orders every cart item has been
  served. The request of an item writes, for the product of the item, the maximum of 0
  and that stock less the quantity ordered: it is never negative, it is 0 when the
  quantity exceeds the stock, and it is the difference otherwise. A products table
  without negative stock has none after the call, whatever the store answered.
\<close>

theorem createOrder_stock_floor:
  fixes st :: "('n::linordered_idom) state"
  assumes "createOrder env c cartItems shippingAddress notes st = (r, st')"
  shows "(\<exists>served. stock_requests (calls st') = stock_requests (calls st) @ map stock_request served
            \<and> set served \<subseteq> set cartItems
            \<and> (\<forall>os. r = Inr os \<longrightarrow> set served = set cartItems))
       \<and> (\<forall>item\<in>set cartItems. \<exists>v.
             stock_request item = UpdateProductStock (ci_product_id item) v
             \<and> v = max 0 (p_stock_quantity (ci_product item) - ci_quantity item)
             \<and> 0 \<le> v
             \<and> (p_stock_quantity (ci_product item) < ci_quantity item \<longrightarrow> v = 0)
             \<and> (ci_quantity item \<le> p_stock_quantity (ci_product item) \<longrightarrow>
                  v = p_stock_quantity (ci_product item) - ci_quantity item))
       \<and> ((\<forall>p\<in>set (products st). 0 \<le> p_stock_quantity p) \<longrightarrow>
            (\<forall>p\<in>set (products st'). 0 \<le> p_stock_quantity p))"
proof -
  note a = createOrder_stock_requests [OF assms]
  have b: "\<forall>item\<in>set cartItems. \<exists>v.
             stock_request item = UpdateProductStock (ci_product_id item) v
             \<and> v = max 0 (p_stock_quantity (ci_product item) - ci_quantity item)
             \<and> 0 \<le> v
             \<and> (p_stock_quantity (ci_product item) < ci_quantity item \<longrightarrow> v = 0)
             \<and> (ci_quantity item \<le> p_stock_quantity (ci_product item) \<longrightarrow>
                  v = p_stock_quantity (ci_product item) - ci_quantity item)"
    by (simp add: stock_request_def max_def)
  have d: "(\<forall>p\<in>set (products st). 0 \<le> p_stock_quantity p) \<longrightarrow>
            (\<forall>p\<in>set (products st'). 0 \<le> p_stock_quantity p)"
  proof
    assume "\<forall>p\<in>set (products st). 0 \<le> p_stock_quantity p"
    from createOrder_nonneg [OF this, of env c cartItems shippingAddress "notes"]
    show "\<forall>p\<in>set (products st'). 0 \<le> p_stock_quantity p"
      using assms by simp
  qed
  from a b d show ?thesis by blast
qed

theorem createOrder_stock_floor_witness:
  "fst (createOrder (example_env None (StoreError True [])) example_ctx
          [example_itemA, example_itemB] ''12 Marina Road'' None example_store)
     = Inr [example_order1, example_order2]
   \<and> list_all (\<lambda>p. 0 \<le> p_stock_quantity p) (products example_store)
   \<and> p_stock_quantity (ci_product example_itemB) < ci_quantity example_itemB
   \<and> stock_request example_itemB = UpdateProductStock ''product-b'' 0
   \<and> stock_requests
        (calls (snd (createOrder (example_env None (StoreError True [])) example_ctx
                       [example_itemA, example_itemB] ''12 Marina Road'' None example_store)))
       = [UpdateProductStock ''product-a'' 8, UpdateProductStock ''product-b'' 0]
   \<and> map p_stock_quantity
         (products (snd (createOrder (example_env None (StoreError True [])) example_ctx
                           [example_itemA, example_itemB] ''12 Marina Road'' None example_store)))
       = [8, 0]
   \<and> (\<exists>served.
         stock_requests
           (calls (snd (createOrder (example_env None (StoreError True [])) example_ctx
                          [example_itemA, example_itemB] ''12 Marina Road'' None example_store)))
           = stock_requests (calls example_store) @ map stock_request served
         \<and> set served = set [example_itemA, example_itemB])
   \<and> list_all (\<lambda>p. 0 \<le> p_stock_quantity p)
         (products (snd (createOrder (example_env None (StoreError True [])) example_ctx
                           [example_itemA, example_itemB] ''12 Marina Road'' None example_store)))"
proof -
  let ?run = "createOrder (example_env None (StoreError True [])) example_ctx
                [example_itemA, example_itemB] ''12 Marina Road'' None example_store"
  have f1: "fst ?run = Inr [example_order1, example_order2]"
    by (simp add: store_defs run_defs example_defs)
  have h1: "?run = (Inr [example_order1, example_order2], snd ?run)"
    using f1 by (simp only: prod_eq_iff fst_conv snd_conv simp_thms)
  have h2: "\<forall>p\<in>set (products example_store). 0 \<le> p_stock_quantity p"
    by (simp add: example_defs)
  have h3: "p_stock_quantity (ci_product example_itemB) < ci_quantity example_itemB"
    by (simp add: example_defs)
  have e1: "stock_request example_itemB = UpdateProductStock ''product-b'' 0"
    by (simp add: stock_request_def example_defs)
  have e2: "stock_requests (calls (snd ?run))
              = [UpdateProductStock ''product-a'' 8, UpdateProductStock ''product-b'' 0]"
    by (simp add: stock_requests_def is_stock_update_def store_defs run_defs example_defs)
  have e3: "map p_stock_quantity (products (snd ?run)) = [8, 0]"
    by (simp add: store_defs run_defs example_defs)
  note t = createOrder_stock_floor [OF h1]
  from t have c1: "\<exists>served. stock_requests (calls (snd ?run))
                      = stock_requests (calls example_store) @ map stock_request served
                    \<and> set served = set [example_itemA, example_itemB]"
    by blast
  from t h2 have c2: "\<forall>p\<in>set (products (snd ?run)). 0 \<le> p_stock_quantity p"
    by blast
  from f1 h2 h3 e1 e2 e3 c1 c2 show ?thesis
    unfolding list_all_iff by blast
qed

end
